theory Spec2Isabelle
  imports Complex_Main
begin

section \<open>Data model of the infinite-scroll feed hook\<close>

text \<open>
  The hook \<open>useInfiniteFeed\<close> merges the pages of a paginated feed into one item list,
  appends placeholder posts while the next page is loading, and asks for the next page
  when the bottom of the feed element is inside the viewport.

  A page is the \<open>FeedMetadataJson\<close> of the source: its \<open>posts\<close>, the cursor \<open>next\<close> of the
  following page (the field is called \<open>page_next\<close> here, \<open>next\<close> being an Isar keyword) and
  the count hint \<open>nextCount\<close>. Cursors and counts are JavaScript numbers holding integers;
  an absent field is \<open>None\<close>. The type \<open>'pj\<close> stands for \<open>PostJson\<close> and \<open>'p\<close> for \<open>Post\<close>,
  both declared outside the files at hand.
\<close>

record 'pj page =
  posts :: "'pj list"
  page_next :: "int option"
  nextCount :: "int option"

text \<open>\<open>FeedItems\<close> is a list of posts and placeholder posts; a placeholder post is the
  object \<open>{ isPlaceholder: true, key }\<close>.\<close>

datatype 'p feed_item = Post 'p | PlaceholderPost string

fun isPlaceholder :: "'p feed_item \<Rightarrow> bool" where
  "isPlaceholder (Post p) = False"
| "isPlaceholder (PlaceholderPost k) = True"

fun key :: "'p feed_item \<Rightarrow> string option" where
  "key (Post p) = None"
| "key (PlaceholderPost k) = Some k"

text \<open>The failures of the code: \<open>Array(n)\<close> raises a \<open>RangeError\<close> when \<open>n\<close> is not an
  array length, the fetch handler throws \<open>Error(message)\<close> on a response that is not ok,
  \<open>fetch\<close> itself rejects on a transport failure and \<open>response.json()\<close> rejects on a body
  that does not parse.\<close>

datatype error = RangeError | Error string | TransportError | SyntaxError

record 'pj pageContext =
  feedType :: string
  feedId :: "string option"
  pageIndex :: int
  feedMetadata :: "'pj page"

text \<open>The \<open>data\<close> of an infinite query (\<open>InfiniteData\<close>) and the fields of the query
  result that the hook reads.\<close>

record 'pj infinite_data =
  pages :: "'pj page list"
  pageParams :: "int option list"

record 'pj feed_query =
  data :: "'pj infinite_data option"
  hasNextPage :: bool
  isFetchingNextPage :: bool
  error :: "error option"

text \<open>A response of \<open>fetch\<close>: the flag \<open>ok\<close> and the outcome of \<open>json()\<close>.\<close>

record 'pj response =
  ok :: bool
  json :: "error + 'pj page"

section \<open>Numbers in template literals\<close>

text \<open>A template literal renders an integer in decimal, with a leading minus sign when it
  is negative.\<close>

definition digit_char :: "nat \<Rightarrow> char" where
  "digit_char d = ''0123456789'' ! d"

fun string_of_nat :: "nat \<Rightarrow> string" where
  "string_of_nat n =
     (if n < 10 then [digit_char n]
      else string_of_nat (n div 10) @ [digit_char (n mod 10)])"

declare string_of_nat.simps [simp del]

definition string_of_int :: "int \<Rightarrow> string" where
  "string_of_int i =
     (if i < 0 then CHR ''-'' # string_of_nat (nat (- i)) else string_of_nat (nat i))"

section \<open>The functions of the hook\<close>

text \<open>\<open>resolveBaseUrl\<close>: the path prefix of the site configuration, the feed metadata
  directory (a constant of the build), the feed type and, when the feed id is a non-empty
  string, a dash and the feed id.\<close>

definition resolveBaseUrl :: "string \<Rightarrow> string \<Rightarrow> 'pj pageContext \<Rightarrow> string" where
  "resolveBaseUrl pathPrefix feedMetaDirectory pageContext =
     pathPrefix @ feedMetaDirectory @ ''/'' @ feedType pageContext @
       (case feedId pageContext of
          None \<Rightarrow> ''''
        | Some i \<Rightarrow> if i = '''' then '''' else ''-'' @ i)"

text \<open>\<open>generatePostPlaceholders\<close>: \<open>Array(count || postsPerFeedPage).fill(0).map(...)\<close>.
  The constant \<open>constants.postsPerFeedPage\<close> is a parameter. An absent count and the
  count 0 are falsy, so both give the default; \<open>Array(n)\<close> raises a \<open>RangeError\<close> unless
  \<open>0 \<le> n \<le> 2^32 - 1\<close>. The limits of an engine on memory are not part of the model.\<close>

definition array_length_max :: int where
  "array_length_max = 4294967295"

definition generatePostPlaceholders ::
    "int \<Rightarrow> string \<Rightarrow> int option \<Rightarrow> error + 'p feed_item list" where
  "generatePostPlaceholders postsPerFeedPage keyPrefix count =
     (let n = (case count of
                 None \<Rightarrow> postsPerFeedPage
               | Some c \<Rightarrow> if c = 0 then postsPerFeedPage else c)
      in if n < 0 \<or> array_length_max < n then Inl RangeError
         else Inr (map (\<lambda>idx. PlaceholderPost (keyPrefix @ ''-'' @ string_of_nat idx))
                    [0..<nat n]))"

text \<open>\<open>generateFetchHandler(baseUrl)\<close> returns the handler; the handler fetches
  \<open>`${baseUrl}-${pageParam}.json`\<close>, with \<open>pageParam\<close> defaulting to 0, throws when the
  response is not ok and returns \<open>response.json()\<close> otherwise. The network is the function
  \<open>fetch\<close> from a resource location to a response or a transport failure. The handler's
  value is the list of locations it requested and its outcome.\<close>

definition generateFetchHandler ::
    "(string \<Rightarrow> error + 'pj response) \<Rightarrow> string \<Rightarrow> int option
       \<Rightarrow> string list \<times> (error + 'pj page)" where
  "generateFetchHandler fetch baseUrl pageParamOpt =
     (let pageParam = (case pageParamOpt of None \<Rightarrow> 0 | Some c \<Rightarrow> c);
          url = baseUrl @ ''-'' @ string_of_int pageParam @ ''.json''
      in ([url],
          (case fetch url of
             Inl e \<Rightarrow> Inl e
           | Inr response \<Rightarrow>
               if \<not> ok response then Inl (Error (''Failed to fetch '' @ url))
               else json response)))"

text \<open>The calls a function makes are recorded as a trace.\<close>

datatype call = LoadNext | FetchNextPage

text \<open>\<open>loadNext\<close> calls \<open>feedQuery.fetchNextPage()\<close> when there is a next page, no next
  page is being fetched and the query holds no error.\<close>

definition loadNext :: "'pj feed_query \<Rightarrow> call list" where
  "loadNext feedQuery =
     (if hasNextPage feedQuery \<and> \<not> isFetchingNextPage feedQuery \<and> error feedQuery = None
      then [FetchNextPage] else [])"

text \<open>The window as \<open>checkScrollState\<close> reads it: \<open>feedElementRef.current\<close>, given by the
  \<open>bottom\<close> of the element's bounding rectangle when an element is attached, and
  \<open>window.innerHeight\<close>.\<close>

record viewport =
  current :: "real option"
  innerHeight :: real

definition checkScrollState :: "viewport \<Rightarrow> 'pj feed_query \<Rightarrow> call list" where
  "checkScrollState v feedQuery =
     (case current v of
        None \<Rightarrow> []
      | Some bottom \<Rightarrow>
          if bottom \<le> innerHeight v then LoadNext # loadNext feedQuery else [])"

text \<open>\<open>useScrollContingentFetch\<close> registers \<open>onScroll\<close> as the listener of the window's
  scroll events and calls \<open>checkScrollState\<close> once in the body of the render.\<close>

definition onScroll :: "viewport \<Rightarrow> 'pj feed_query \<Rightarrow> call list" where
  "onScroll v feedQuery = checkScrollState v feedQuery"

definition useScrollContingentFetch :: "viewport \<Rightarrow> 'pj feed_query \<Rightarrow> call list" where
  "useScrollContingentFetch v feedQuery = checkScrollState v feedQuery"

text \<open>\<open>feedItems\<close>, the memoised value of \<open>useInfiniteFeed\<close>. The function \<open>jsonToPost\<close> is
  a parameter. An array is truthy even when empty, so the posts of the page context are
  used only when the query has no \<open>data\<close>; \<open>pages[pages.length - 1]\<close> is undefined on an
  empty array.\<close>

definition feedItems ::
    "('pj \<Rightarrow> 'p) \<Rightarrow> int \<Rightarrow> 'pj pageContext \<Rightarrow> 'pj feed_query
       \<Rightarrow> error + 'p feed_item list" where
  "feedItems jsonToPost postsPerFeedPage pageContext feedQuery =
     (let jsonPostList =
            (case data feedQuery of
               Some d \<Rightarrow> concat (map posts (pages d))
             | None \<Rightarrow> posts (feedMetadata pageContext));
          list = map (\<lambda>j. Post (jsonToPost j)) jsonPostList
      in if isFetchingNextPage feedQuery then
           (let lastPage =
                  (case data feedQuery of
                     None \<Rightarrow> None
                   | Some d \<Rightarrow> if pages d = [] then None else Some (last (pages d)));
                count = (case lastPage of None \<Rightarrow> None | Some p \<Rightarrow> nextCount p)
            in case generatePostPlaceholders postsPerFeedPage ''next'' count of
                 Inl e \<Rightarrow> Inl e
               | Inr placeholders \<Rightarrow> Inr (list @ placeholders))
         else Inr list)"

section \<open>The query behind the hook\<close>

text \<open>
  The options that \<open>useInfiniteFeed\<close> passes to \<open>useInfiniteQuery\<close>: the next page
  parameter is the \<open>next\<close> of the last page, and the initial data is the page of the page
  context, so that the first page is never fetched.
\<close>

definition getNextPageParam :: "'pj page \<Rightarrow> int option" where
  "getNextPageParam lastPage = page_next lastPage"

definition initialData :: "'pj pageContext \<Rightarrow> 'pj infinite_data" where
  "initialData pageContext =
     \<lparr>pages = [feedMetadata pageContext], pageParams = [Some (pageIndex pageContext)]\<rparr>"

text \<open>
  Modelled from the spec: the query object itself (\<open>useInfiniteQuery\<close> of the library
  react-query, with its \<open>fetchNextPage\<close>) is not among the source files. Sections 3 and 4.1
  of the specification describe it as the Feed State: the ordered list of the pages
  fetched so far, the initial page first; a fetch-in-progress flag; an optional error of
  the last fetch. Starting a fetch sets the flag and calls the fetch handler with the
  cursor of the most recently fetched page; when the fetch completes, either the new page
  is appended or the error is recorded, and the flag is cleared in both cases. A next page
  exists when the last page has a cursor.

  The state keeps the outcome of the fetch in flight (\<open>fs_inflight\<close>, with the cursor that
  was requested) and the log of the resource locations requested so far (\<open>fs_requests\<close>).
\<close>

record 'pj feed_state =
  fs_data :: "'pj infinite_data"
  fs_inflight :: "(int option \<times> (error + 'pj page)) option"
  fs_error :: "error option"
  fs_requests :: "string list"

text \<open>Modelled from the spec: \<open>initialize\<close> establishes the Feed State from the initial
  page, with no fetch in flight, no error and nothing requested.\<close>

definition initialize :: "'pj pageContext \<Rightarrow> 'pj feed_state" where
  "initialize pageContext =
     \<lparr>fs_data = initialData pageContext, fs_inflight = None, fs_error = None,
      fs_requests = []\<rparr>"

text \<open>Modelled from the spec: the query result that a render of the hook sees in a state
  (the library computes it). The data are the pages fetched so far; a next page exists
  when the last page has a cursor ("a next-page cursor exists", with the cursor given by
  \<open>getNextPageParam\<close>); a fetch is in flight when an outcome is pending; the error is the
  one recorded.\<close>

definition feedQuery_of :: "'pj feed_state \<Rightarrow> 'pj feed_query" where
  "feedQuery_of st =
     \<lparr>data = Some (fs_data st),
      hasNextPage =
        (pages (fs_data st) \<noteq> [] \<and> getNextPageParam (last (pages (fs_data st))) \<noteq> None),
      isFetchingNextPage = (fs_inflight st \<noteq> None),
      error = fs_error st\<rparr>"

text \<open>Modelled from the spec: \<open>fetchNextPage\<close> of the library. It "transitions Feed State
  to fetch in flight" and "performs the fetch": the fetch handler is called with the
  \<open>next\<close> of the most recently fetched page, the location it requests is logged, and its
  outcome, fixed by the network at that moment, is pending until the fetch settles.\<close>

definition fetchNextPage ::
    "(string \<Rightarrow> error + 'pj response) \<Rightarrow> string \<Rightarrow> 'pj feed_state \<Rightarrow> 'pj feed_state" where
  "fetchNextPage fetch baseUrl st =
     (let pageParam =
            (if pages (fs_data st) = [] then None
             else getNextPageParam (last (pages (fs_data st))));
          handled = generateFetchHandler fetch baseUrl pageParam
      in st\<lparr>fs_inflight := Some (pageParam, snd handled),
            fs_requests := fs_requests st @ fst handled\<rparr>)"

text \<open>Modelled from the spec: the completion of the fetch in flight. It "either appends the
  new Page (clearing in-flight) or records an error (clearing in-flight, preserving
  error)"; with no fetch in flight nothing happens.\<close>

definition fetchSettled :: "'pj feed_state \<Rightarrow> 'pj feed_state" where
  "fetchSettled st =
     (case fs_inflight st of
        None \<Rightarrow> st
      | Some (pageParam, Inr page) \<Rightarrow>
          st\<lparr>fs_data := \<lparr>pages = pages (fs_data st) @ [page],
                          pageParams = pageParams (fs_data st) @ [pageParam]\<rparr>,
             fs_inflight := None\<rparr>
      | Some (pageParam, Inl e) \<Rightarrow> st\<lparr>fs_error := Some e, fs_inflight := None\<rparr>)"

text \<open>Carrying out the calls of a trace on the state: \<open>loadNext\<close> itself changes nothing,
  \<open>fetchNextPage\<close> starts a fetch.\<close>

fun perform ::
    "(string \<Rightarrow> error + 'pj response) \<Rightarrow> string \<Rightarrow> 'pj feed_state \<Rightarrow> call \<Rightarrow> 'pj feed_state" where
  "perform fetch baseUrl st LoadNext = st"
| "perform fetch baseUrl st FetchNextPage = fetchNextPage fetch baseUrl st"

text \<open>\<open>loadNext\<close> is a closure of a render: it reads the \<open>feedQuery\<close> that was passed to
  \<open>useScrollContingentFetch\<close> in that render, whatever has happened to the feed since. The
  scroll listener keeps the closure until the effect of the next render replaces it, and
  the body of the render calls the same closure. \<open>loadNext_of_render\<close> is a call of the
  \<open>loadNext\<close> of a render whose query result is \<open>feedQuery\<close>, made when the feed is in
  the state \<open>st\<close>.\<close>

definition loadNext_of_render ::
    "(string \<Rightarrow> error + 'pj response) \<Rightarrow> string \<Rightarrow> 'pj feed_query \<Rightarrow> 'pj feed_state
       \<Rightarrow> 'pj feed_state" where
  "loadNext_of_render fetch baseUrl feedQuery st =
     foldl (perform fetch baseUrl) st (loadNext feedQuery)"

text \<open>\<open>requestNextIfNeeded\<close> is the call of \<open>loadNext\<close> from a render of the current state:
  a render has taken place since the state last changed, so the closure reads the query
  result of the state as it is. A viewport change (a scroll event, or the check of a
  render pass) is \<open>checkScrollState\<close> called in the same way.\<close>

definition requestNextIfNeeded ::
    "(string \<Rightarrow> error + 'pj response) \<Rightarrow> string \<Rightarrow> 'pj feed_state \<Rightarrow> 'pj feed_state" where
  "requestNextIfNeeded fetch baseUrl st =
     loadNext_of_render fetch baseUrl (feedQuery_of st) st"

definition viewportChanged ::
    "(string \<Rightarrow> error + 'pj response) \<Rightarrow> string \<Rightarrow> viewport \<Rightarrow> 'pj feed_state
       \<Rightarrow> 'pj feed_state" where
  "viewportChanged fetch baseUrl v st =
     foldl (perform fetch baseUrl) st (checkScrollState v (feedQuery_of st))"

text \<open>What can happen to a feed: a call of \<open>requestNextIfNeeded\<close> or a viewport change,
  each made from a render of the current state and with the network as it is at that
  moment, and the completion of the fetch in flight.\<close>

datatype 'pj event =
    RequestNextIfNeeded "string \<Rightarrow> error + 'pj response"
  | ViewportChanged "string \<Rightarrow> error + 'pj response" viewport
  | FetchSettled

fun step :: "string \<Rightarrow> 'pj feed_state \<Rightarrow> 'pj event \<Rightarrow> 'pj feed_state" where
  "step baseUrl st (RequestNextIfNeeded fetch) = requestNextIfNeeded fetch baseUrl st"
| "step baseUrl st (ViewportChanged fetch v) = viewportChanged fetch baseUrl v st"
| "step baseUrl st FetchSettled = fetchSettled st"

definition run :: "string \<Rightarrow> 'pj feed_state \<Rightarrow> 'pj event list \<Rightarrow> 'pj feed_state" where
  "run baseUrl st evs = foldl (step baseUrl) st evs"

text \<open>The merged items that the consumer sees in a state.\<close>

definition getMergedItems ::
    "('pj \<Rightarrow> 'p) \<Rightarrow> int \<Rightarrow> 'pj pageContext \<Rightarrow> 'pj feed_state \<Rightarrow> error + 'p feed_item list" where
  "getMergedItems jsonToPost postsPerFeedPage pageContext st =
     feedItems jsonToPost postsPerFeedPage pageContext (feedQuery_of st)"

text \<open>A network that answers every fetch with the given response, one on which every
  fetch succeeds with the given page, and the events of fetching the pages of a list one
  after the other.\<close>

definition answering :: "'pj response \<Rightarrow> string \<Rightarrow> error + 'pj response" where
  "answering r url = Inr r"

definition serving :: "'pj page \<Rightarrow> string \<Rightarrow> error + 'pj response" where
  "serving p = answering \<lparr>ok = True, json = Inr p\<rparr>"

definition fetches :: "'pj page list \<Rightarrow> 'pj event list" where
  "fetches ps = concat (map (\<lambda>p. [RequestNextIfNeeded (serving p), FetchSettled]) ps)"

text \<open>The items of a list of pages: the posts of each page, in order, as posts.\<close>

definition items_of :: "('pj \<Rightarrow> 'p) \<Rightarrow> 'pj page list \<Rightarrow> 'p feed_item list" where
  "items_of jsonToPost ps = concat (map (\<lambda>p. map (\<lambda>j. Post (jsonToPost j)) (posts p)) ps)"

text \<open>The number of placeholders for a count hint: the hint when it is present and not 0,
  the default otherwise.\<close>

definition placeholder_count :: "int \<Rightarrow> int option \<Rightarrow> int" where
  "placeholder_count postsPerFeedPage count =
     (case count of None \<Rightarrow> postsPerFeedPage
      | Some c \<Rightarrow> if c = 0 then postsPerFeedPage else c)"

definition array_length :: "int \<Rightarrow> bool" where
  "array_length n \<longleftrightarrow> 0 \<le> n \<and> n \<le> array_length_max"

text \<open>The placeholder posts with the keys \<open>keyPrefix-0\<close>, ..., \<open>keyPrefix-(n-1)\<close>.\<close>

definition placeholders :: "string \<Rightarrow> nat \<Rightarrow> 'p feed_item list" where
  "placeholders keyPrefix n =
     map (\<lambda>idx. PlaceholderPost (keyPrefix @ ''-'' @ string_of_nat idx)) [0..<n]"

text \<open>The feed of the scenario of the specification: the initial page holds the posts A
  and B, the cursor 1 and the count hint 2; the page fetched next holds the post C and no
  cursor.\<close>

abbreviation page_AB :: "string page" where
  "page_AB \<equiv> \<lparr>posts = [''A'', ''B''], page_next = Some 1, nextCount = Some 2\<rparr>"

abbreviation page_C :: "string page" where
  "page_C \<equiv> \<lparr>posts = [''C''], page_next = None, nextCount = None\<rparr>"

abbreviation context_AB :: "string pageContext" where
  "context_AB \<equiv>
     \<lparr>feedType = ''index'', feedId = None, pageIndex = 0, feedMetadata = page_AB\<rparr>"

section \<open>Decimal rendering is injective\<close>

lemma digit_char_inj:
  assumes "a < 10" "b < 10" "digit_char a = digit_char b"
  shows "a = b"
proof -
  have d: "distinct ''0123456789''" by simp
  from assms show ?thesis
    unfolding digit_char_def using nth_eq_iff_index_eq[OF d, of a b] by simp
qed

lemma string_of_nat_ne: "string_of_nat n \<noteq> []"
  by (subst string_of_nat.simps) simp

lemma string_of_nat_inj: "string_of_nat n = string_of_nat m \<Longrightarrow> n = m"
proof (induction n arbitrary: m rule: string_of_nat.induct)
  case (1 n)
  show ?case
  proof (cases "n < 10")
    case True
    note n = this
    show ?thesis
    proof (cases "m < 10")
      case True
      with n 1(2) show ?thesis
        by (simp add: string_of_nat.simps[of n] string_of_nat.simps[of m] digit_char_inj)
    next
      case False
      with n 1(2) string_of_nat_ne[of "m div 10"] show ?thesis
        by (simp add: string_of_nat.simps[of n] string_of_nat.simps[of m])
    qed
  next
    case False
    note n = this
    show ?thesis
    proof (cases "m < 10")
      case True
      with n 1(2) string_of_nat_ne[of "n div 10"] show ?thesis
        by (simp add: string_of_nat.simps[of n] string_of_nat.simps[of m])
    next
      case False
      with n 1(2) have e: "string_of_nat (n div 10) = string_of_nat (m div 10)"
        and d: "digit_char (n mod 10) = digit_char (m mod 10)"
        by (simp_all add: string_of_nat.simps[of n] string_of_nat.simps[of m])
      from 1(1)[OF n e] have "n div 10 = m div 10" .
      moreover from d have "n mod 10 = m mod 10" by (simp add: digit_char_inj)
      ultimately show ?thesis by (metis div_mult_mod_eq)
    qed
  qed
qed

section \<open>Placeholders\<close>

lemma generatePostPlaceholders_eq:
  "generatePostPlaceholders dflt keyPrefix count =
     (if array_length (placeholder_count dflt count)
      then Inr (placeholders keyPrefix (nat (placeholder_count dflt count)))
      else Inl RangeError)"
  by (auto simp add: generatePostPlaceholders_def placeholder_count_def array_length_def
      placeholders_def Let_def split: option.splits)

lemma length_placeholders: "length (placeholders keyPrefix n) = n"
  by (simp add: placeholders_def)

lemma placeholders_all_placeholder: "x \<in> set (placeholders keyPrefix n) \<Longrightarrow> isPlaceholder x"
  by (auto simp add: placeholders_def)

lemma key_placeholders:
  "map key (placeholders keyPrefix n) =
     map (\<lambda>idx. Some (keyPrefix @ ''-'' @ string_of_nat idx)) [0..<n]"
  by (simp add: placeholders_def comp_def)

lemma distinct_placeholder_keys: "distinct (map key (placeholders keyPrefix n))"
proof -
  have "inj (\<lambda>idx. Some (keyPrefix @ ''-'' @ string_of_nat idx))"
    by (rule injI) (simp add: string_of_nat_inj)
  then have "inj_on (\<lambda>idx. Some (keyPrefix @ ''-'' @ string_of_nat idx)) (set [0..<n])"
    by (rule inj_on_subset) simp
  then show ?thesis
    by (simp only: key_placeholders distinct_map distinct_upt simp_thms)
qed

lemma length_items_of:
  "length (items_of jsonToPost ps) = sum_list (map (\<lambda>p. length (posts p)) ps)"
  by (induction ps) (simp_all add: items_of_def)

section \<open>The merged list\<close>

lemma feedItems_idle:
  assumes "\<not> isFetchingNextPage q" "data q = Some d"
  shows "feedItems jsonToPost dflt pageContext q = Inr (items_of jsonToPost (pages d))"
  using assms by (simp add: feedItems_def items_of_def Let_def map_concat comp_def)

lemma feedItems_fetching:
  assumes "isFetchingNextPage q" "data q = Some d" "pages d \<noteq> []"
  shows "feedItems jsonToPost dflt pageContext q =
     (if array_length (placeholder_count dflt (nextCount (last (pages d))))
      then Inr (items_of jsonToPost (pages d) @
             placeholders ''next'' (nat (placeholder_count dflt (nextCount (last (pages d))))))
      else Inl RangeError)"
  using assms
  by (simp add: feedItems_def items_of_def Let_def map_concat comp_def
      generatePostPlaceholders_eq)

lemma feedItems_no_data:
  assumes "data q = None"
  shows "feedItems jsonToPost dflt pageContext q =
     (if isFetchingNextPage q then
        (if array_length dflt
         then Inr (map (\<lambda>j. Post (jsonToPost j)) (posts (feedMetadata pageContext)) @
                placeholders ''next'' (nat dflt))
         else Inl RangeError)
      else Inr (map (\<lambda>j. Post (jsonToPost j)) (posts (feedMetadata pageContext))))"
  using assms
  by (simp add: feedItems_def Let_def generatePostPlaceholders_eq placeholder_count_def)

section \<open>Steps of the feed\<close>

lemma fst_generateFetchHandler:
  "fst (generateFetchHandler fetch baseUrl c) =
     [baseUrl @ ''-'' @ string_of_int (case c of None \<Rightarrow> 0 | Some x \<Rightarrow> x) @ ''.json'']"
  by (simp add: generateFetchHandler_def Let_def)

lemma loadNext_feedQuery_of:
  "loadNext (feedQuery_of st) =
     (if pages (fs_data st) \<noteq> [] \<and> page_next (last (pages (fs_data st))) \<noteq> None
         \<and> fs_inflight st = None \<and> fs_error st = None
      then [FetchNextPage] else [])"
  by (simp add: loadNext_def feedQuery_of_def getNextPageParam_def)

lemma requestNextIfNeeded_if:
  "requestNextIfNeeded fetch baseUrl st =
     (if loadNext (feedQuery_of st) = [FetchNextPage] then fetchNextPage fetch baseUrl st else st)"
  by (simp add: requestNextIfNeeded_def loadNext_of_render_def loadNext_def)

lemma viewportChanged_if:
  "viewportChanged fetch baseUrl v st =
     (if LoadNext \<in> set (checkScrollState v (feedQuery_of st))
      then requestNextIfNeeded fetch baseUrl st else st)"
  by (simp add: viewportChanged_def checkScrollState_def requestNextIfNeeded_def
      loadNext_of_render_def split: option.splits)

lemma fetchNextPage_fields:
  "fs_inflight (fetchNextPage fetch baseUrl st) \<noteq> None"
  "fs_data (fetchNextPage fetch baseUrl st) = fs_data st"
  "fs_error (fetchNextPage fetch baseUrl st) = fs_error st"
  "fs_requests (fetchNextPage fetch baseUrl st) =
     fs_requests st @
       [baseUrl @ ''-'' @
          string_of_int
            (case (if pages (fs_data st) = [] then None
                   else page_next (last (pages (fs_data st)))) of
               None \<Rightarrow> 0 | Some x \<Rightarrow> x) @ ''.json'']"
  by (simp_all add: fetchNextPage_def Let_def fst_generateFetchHandler getNextPageParam_def)

lemma step_idle:
  assumes "loadNext (feedQuery_of st) = []" "fs_inflight st = None"
  shows "step baseUrl st ev = st"
  using assms
  by (cases ev) (simp_all add: requestNextIfNeeded_if viewportChanged_if fetchSettled_def)

lemma run_idle:
  assumes "loadNext (feedQuery_of st) = []" "fs_inflight st = None"
  shows "run baseUrl st evs = st"
  unfolding run_def using assms
  by (induction evs) (simp_all add: step_idle)

lemma fetch_one_page:
  assumes "fs_inflight st = None" "fs_error st = None" "pages (fs_data st) \<noteq> []"
    "page_next (last (pages (fs_data st))) \<noteq> None"
  shows "fetchSettled (requestNextIfNeeded (serving p) baseUrl st) =
     st\<lparr>fs_data := \<lparr>pages = pages (fs_data st) @ [p],
                     pageParams = pageParams (fs_data st) @ [page_next (last (pages (fs_data st)))]\<rparr>,
        fs_requests := fs_requests st @
           [baseUrl @ ''-'' @ string_of_int (the (page_next (last (pages (fs_data st))))) @ ''.json'']\<rparr>"
  using assms
  by (auto simp add: requestNextIfNeeded_if loadNext_feedQuery_of fetchNextPage_def
      fetchSettled_def generateFetchHandler_def serving_def answering_def
      getNextPageParam_def Let_def)

lemma run_fetches:
  assumes "fs_inflight st = None" "fs_error st = None" "pages (fs_data st) \<noteq> []"
    "\<forall>p \<in> set (butlast (pages (fs_data st) @ ps)). page_next p \<noteq> None"
  shows "pages (fs_data (run baseUrl st (fetches ps))) = pages (fs_data st) @ ps
     \<and> fs_inflight (run baseUrl st (fetches ps)) = None
     \<and> fs_error (run baseUrl st (fetches ps)) = None"
  using assms
proof (induction ps arbitrary: st)
  case Nil
  then show ?case by (simp add: run_def fetches_def)
next
  case (Cons p ps)
  let ?st' = "fetchSettled (requestNextIfNeeded (serving p) baseUrl st)"
  have last_in: "last (pages (fs_data st)) \<in> set (butlast (pages (fs_data st) @ p # ps))"
    using Cons.prems(3) by (simp add: butlast_append)
  with Cons.prems(4) have nxt: "page_next (last (pages (fs_data st))) \<noteq> None" by blast
  note one = fetch_one_page[OF Cons.prems(1) Cons.prems(2) Cons.prems(3) nxt, of p baseUrl]
  have run_eq: "run baseUrl st (fetches (p # ps)) = run baseUrl ?st' (fetches ps)"
    by (simp add: run_def fetches_def)
  have pg: "pages (fs_data ?st') = pages (fs_data st) @ [p]"
    by (simp add: one)
  have "pages (fs_data (run baseUrl ?st' (fetches ps))) = pages (fs_data ?st') @ ps
     \<and> fs_inflight (run baseUrl ?st' (fetches ps)) = None
     \<and> fs_error (run baseUrl ?st' (fetches ps)) = None"
  proof (rule Cons.IH)
    show "fs_inflight ?st' = None" using Cons.prems(1) by (simp add: one)
    show "fs_error ?st' = None" using Cons.prems(2) by (simp add: one)
    show "pages (fs_data ?st') \<noteq> []" by (simp add: pg)
    show "\<forall>q \<in> set (butlast (pages (fs_data ?st') @ ps)). page_next q \<noteq> None"
      using Cons.prems(4) by (simp add: pg)
  qed
  then show ?case by (simp add: run_eq pg)
qed

section \<open>The claims\<close>

text \<open>
  C1. For every sequence of successfully fetched pages, the merged item list returned to
  the consumer is the concatenation, in fetch order, of the items of each fetched page,
  the items of the initial page of the caller first. Here the pages \<open>ps\<close> are fetched one
  after the other from the initial state; each page but the last carries the cursor that
  lets the next fetch start.
\<close>

theorem merged_items_concatenate_pages:
  assumes "\<forall>p \<in> set (butlast (feedMetadata pageContext # ps)). page_next p \<noteq> None"
  shows "pages (fs_data (run baseUrl (initialize pageContext) (fetches ps))) =
           feedMetadata pageContext # ps
       \<and> getMergedItems jsonToPost dflt pageContext
           (run baseUrl (initialize pageContext) (fetches ps)) =
           Inr (map (\<lambda>j. Post (jsonToPost j)) (posts (feedMetadata pageContext)) @
                items_of jsonToPost ps)"
proof -
  let ?st = "initialize pageContext"
  let ?end = "run baseUrl ?st (fetches ps)"
  have init: "fs_inflight ?st = None" "fs_error ?st = None"
    "pages (fs_data ?st) = [feedMetadata pageContext]"
    by (simp_all add: initialize_def initialData_def)
  have "pages (fs_data ?end) = pages (fs_data ?st) @ ps \<and> fs_inflight ?end = None
      \<and> fs_error ?end = None"
    by (rule run_fetches) (use assms in \<open>simp_all add: init\<close>)
  then have pg: "pages (fs_data ?end) = feedMetadata pageContext # ps"
    and idle: "fs_inflight ?end = None"
    by (simp_all add: init)
  have "getMergedItems jsonToPost dflt pageContext ?end =
      Inr (items_of jsonToPost (pages (fs_data ?end)))"
    unfolding getMergedItems_def
    by (rule feedItems_idle) (simp_all add: feedQuery_of_def idle)
  with pg show ?thesis by (simp add: items_of_def)
qed

theorem merged_items_concatenate_pages_witness:
  "butlast (feedMetadata context_AB # [page_C]) = [page_AB]
   \<and> page_next page_AB = Some 1
   \<and> getMergedItems id 10 context_AB
       (run ''/feed/index'' (initialize context_AB) (fetches [page_C])) =
       Inr [Post ''A'', Post ''B'', Post ''C'']"
  using merged_items_concatenate_pages
    [where pageContext = context_AB and ps = "[page_C]" and jsonToPost = id and dflt = 10
       and baseUrl = "''/feed/index''"]
  by (simp add: items_of_def)



text \<open>
  C3 (as amended). While a fetch is in flight, the merged item list is the items of all
  fetched pages followed by \<open>n\<close> placeholder posts, where \<open>n\<close> is the \<open>nextCount\<close> of the
  last page when it is present and not 0, and the default page size when it is absent or
  0, provided \<open>n\<close> is an array length. The length of the list is the sum of the item
  counts of the pages plus \<open>n\<close>; the trailing \<open>n\<close> entries are all placeholder posts, and
  their keys \<open>next-0\<close>, ..., \<open>next-(n-1)\<close> are pairwise distinct.
\<close>

theorem placeholders_while_fetching:
  assumes "isFetchingNextPage q" and "data q = Some d" and "pages d \<noteq> []"
    and "n = placeholder_count dflt (nextCount (last (pages d)))"
    and "array_length n"
  shows "feedItems jsonToPost dflt pageContext q =
           Inr (items_of jsonToPost (pages d) @ placeholders ''next'' (nat n))
       \<and> length (items_of jsonToPost (pages d) @ placeholders ''next'' (nat n)) =
           sum_list (map (\<lambda>p. length (posts p)) (pages d)) + nat n
       \<and> (\<forall>x \<in> set (placeholders ''next'' (nat n)). isPlaceholder x)
       \<and> map key (placeholders ''next'' (nat n)) =
           map (\<lambda>idx. Some (''next-'' @ string_of_nat idx)) [0..<nat n]
       \<and> distinct (map key (placeholders ''next'' (nat n)))"
proof -
  have "feedItems jsonToPost dflt pageContext q =
      Inr (items_of jsonToPost (pages d) @ placeholders ''next'' (nat n))"
    using feedItems_fetching[OF assms(1) assms(2) assms(3), of jsonToPost dflt pageContext]
      assms(5)
    unfolding assms(4) by simp
  moreover have "length (items_of jsonToPost (pages d) @ placeholders ''next'' (nat n)) =
      sum_list (map (\<lambda>p. length (posts p)) (pages d)) + nat n"
    by (simp add: length_items_of length_placeholders)
  moreover have "\<forall>x \<in> set (placeholders ''next'' (nat n)). isPlaceholder x"
    by (simp add: placeholders_all_placeholder)
  moreover have "map key (placeholders ''next'' (nat n)) =
      map (\<lambda>idx. Some (''next-'' @ string_of_nat idx)) [0..<nat n]"
    by (simp add: key_placeholders)
  moreover have "distinct (map key (placeholders ''next'' (nat n)))"
    by (rule distinct_placeholder_keys)
  ultimately show ?thesis by blast
qed

theorem placeholders_while_fetching_witness:
  "isFetchingNextPage
     \<lparr>data = Some \<lparr>pages = [page_AB], pageParams = [Some 0]\<rparr>, hasNextPage = True,
      isFetchingNextPage = True, error = None\<rparr>
   \<and> placeholder_count 10 (nextCount (last [page_AB])) = 2
   \<and> array_length 2
   \<and> feedItems id 10 context_AB
       \<lparr>data = Some \<lparr>pages = [page_AB], pageParams = [Some 0]\<rparr>, hasNextPage = True,
        isFetchingNextPage = True, error = None\<rparr> =
       Inr [Post ''A'', Post ''B'', PlaceholderPost ''next-0'', PlaceholderPost ''next-1'']"
  using placeholders_while_fetching
    [where q = "\<lparr>data = Some \<lparr>pages = [page_AB], pageParams = [Some 0]\<rparr>,
                  hasNextPage = True, isFetchingNextPage = True, error = None\<rparr>"
       and d = "\<lparr>pages = [page_AB], pageParams = [Some 0]\<rparr>"
       and n = 2 and dflt = 10 and jsonToPost = id and pageContext = context_AB]
  by (simp add: placeholder_count_def array_length_def array_length_max_def items_of_def
      placeholders_def string_of_nat.simps digit_char_def upt_rec)

text \<open>
  C3 as it is stated fails for a count hint of 0: the list gains the default number of
  placeholders (here 2), not \<open>nextCount = 0\<close> of them.
\<close>

theorem placeholders_count_zero_counterexample:
  "feedItems id 2
     \<lparr>feedType = ''index'', feedId = None, pageIndex = 0,
      feedMetadata = \<lparr>posts = [''A''], page_next = Some 1, nextCount = Some 0\<rparr>\<rparr>
     \<lparr>data = Some \<lparr>pages = [\<lparr>posts = [''A''], page_next = Some 1, nextCount = Some 0\<rparr>],
                   pageParams = [Some 0]\<rparr>,
      hasNextPage = True, isFetchingNextPage = True, error = None\<rparr> =
     Inr [Post ''A'', PlaceholderPost ''next-0'', PlaceholderPost ''next-1'']
   \<and> length [Post ''A'', PlaceholderPost ''next-0'', PlaceholderPost ''next-1''] \<noteq>
       length [''A''] + nat 0"
  by (simp add: feedItems_def generatePostPlaceholders_def array_length_max_def
      string_of_nat.simps digit_char_def upt_rec)

text \<open>
  C4 (as amended). A call of \<open>loadNext\<close> from a render whose query result shows a fetch in
  flight calls nothing and leaves the feed state as it is. So, of two calls in succession,
  the second is a no-op whenever it comes from a render that shows the fetch started by the
  first, such as the render that follows the first call, and the two calls then issue
  exactly one network request.
\<close>

theorem in_flight_render_blocks_loadNext:
  "(isFetchingNextPage q \<longrightarrow> loadNext q = [] \<and> loadNext_of_render fetch' baseUrl q s = s)
   \<and> (fs_inflight st \<noteq> None \<longrightarrow> requestNextIfNeeded fetch baseUrl st = st)
   \<and> requestNextIfNeeded fetch' baseUrl (requestNextIfNeeded fetch baseUrl st) =
       requestNextIfNeeded fetch baseUrl st
   \<and> (loadNext (feedQuery_of st) = [FetchNextPage] \<longrightarrow>
        fs_inflight (requestNextIfNeeded fetch baseUrl st) \<noteq> None
        \<and> isFetchingNextPage (feedQuery_of (requestNextIfNeeded fetch baseUrl st))
        \<and> length (fs_requests
             (requestNextIfNeeded fetch' baseUrl (requestNextIfNeeded fetch baseUrl st))) =
           length (fs_requests st) + 1)
   \<and> (loadNext (feedQuery_of st) = [FetchNextPage] \<and> isFetchingNextPage q \<longrightarrow>
        length (fs_requests
          (loadNext_of_render fetch' baseUrl q (requestNextIfNeeded fetch baseUrl st))) =
        length (fs_requests st) + 1)"
proof -
  have blocked: "isFetchingNextPage q \<longrightarrow>
      loadNext q = [] \<and> loadNext_of_render fetch' baseUrl q s = s" for s :: "'a feed_state"
    by (simp add: loadNext_def loadNext_of_render_def)
  have idle: "fs_inflight s \<noteq> None \<longrightarrow> requestNextIfNeeded f baseUrl s = s"
    for s :: "'a feed_state" and f
    by (simp add: requestNextIfNeeded_if loadNext_feedQuery_of)
  have again: "requestNextIfNeeded fetch' baseUrl (requestNextIfNeeded fetch baseUrl st) =
      requestNextIfNeeded fetch baseUrl st"
  proof (cases "loadNext (feedQuery_of st) = [FetchNextPage]")
    case True
    then have "requestNextIfNeeded fetch baseUrl st = fetchNextPage fetch baseUrl st"
      by (simp add: requestNextIfNeeded_if)
    with idle[of "fetchNextPage fetch baseUrl st" fetch'] show ?thesis
      by (simp add: fetchNextPage_fields(1))
  next
    case False
    then have "requestNextIfNeeded f baseUrl st = st" for f
      by (simp add: requestNextIfNeeded_if)
    then show ?thesis by simp
  qed
  have started: "loadNext (feedQuery_of st) = [FetchNextPage] \<longrightarrow>
      fs_inflight (requestNextIfNeeded fetch baseUrl st) \<noteq> None
      \<and> isFetchingNextPage (feedQuery_of (requestNextIfNeeded fetch baseUrl st))
      \<and> length (fs_requests
           (requestNextIfNeeded fetch' baseUrl (requestNextIfNeeded fetch baseUrl st))) =
         length (fs_requests st) + 1"
    unfolding again
    by (simp add: requestNextIfNeeded_if fetchNextPage_fields feedQuery_of_def)
  have later: "loadNext (feedQuery_of st) = [FetchNextPage] \<and> isFetchingNextPage q \<longrightarrow>
      length (fs_requests
        (loadNext_of_render fetch' baseUrl q (requestNextIfNeeded fetch baseUrl st))) =
      length (fs_requests st) + 1"
    by (simp add: loadNext_of_render_def loadNext_def requestNextIfNeeded_if
        fetchNextPage_fields)
  from blocked[of s] idle[of st fetch] again started later show ?thesis by blast
qed

theorem in_flight_render_blocks_loadNext_witness:
  "loadNext (feedQuery_of (initialize context_AB)) = [FetchNextPage]
   \<and> fs_inflight (requestNextIfNeeded (serving page_C) ''/feed/index''
        (initialize context_AB)) = Some (Some 1, Inr page_C)
   \<and> isFetchingNextPage
       (feedQuery_of (requestNextIfNeeded (serving page_C) ''/feed/index''
          (initialize context_AB)))
   \<and> fs_requests
       (loadNext_of_render (serving page_C) ''/feed/index''
          (feedQuery_of (requestNextIfNeeded (serving page_C) ''/feed/index''
             (initialize context_AB)))
          (requestNextIfNeeded (serving page_C) ''/feed/index'' (initialize context_AB))) =
       [''/feed/index-1.json'']
   \<and> requestNextIfNeeded (serving page_C) ''/feed/index''
        (requestNextIfNeeded (serving page_C) ''/feed/index'' (initialize context_AB)) =
       requestNextIfNeeded (serving page_C) ''/feed/index'' (initialize context_AB)"
proof -
  have st: "requestNextIfNeeded (serving page_C) ''/feed/index'' (initialize context_AB) =
      \<lparr>fs_data = \<lparr>pages = [page_AB], pageParams = [Some 0]\<rparr>,
       fs_inflight = Some (Some 1, Inr page_C), fs_error = None,
       fs_requests = [''/feed/index-1.json'']\<rparr>"
    by (simp add: requestNextIfNeeded_if loadNext_feedQuery_of initialize_def initialData_def
        fetchNextPage_def generateFetchHandler_def serving_def answering_def
        getNextPageParam_def string_of_int_def string_of_nat.simps digit_char_def Let_def)
  have first: "loadNext (feedQuery_of (initialize context_AB)) = [FetchNextPage]"
    by (simp add: loadNext_feedQuery_of initialize_def initialData_def)
  have pending: "fs_inflight (requestNextIfNeeded (serving page_C) ''/feed/index''
      (initialize context_AB)) = Some (Some 1, Inr page_C)"
    by (simp add: st)
  have shown: "isFetchingNextPage
      (feedQuery_of (requestNextIfNeeded (serving page_C) ''/feed/index''
         (initialize context_AB)))"
    by (simp add: st feedQuery_of_def)
  have one: "fs_requests
      (loadNext_of_render (serving page_C) ''/feed/index''
         (feedQuery_of (requestNextIfNeeded (serving page_C) ''/feed/index''
            (initialize context_AB)))
         (requestNextIfNeeded (serving page_C) ''/feed/index'' (initialize context_AB))) =
      [''/feed/index-1.json'']"
    using shown
      in_flight_render_blocks_loadNext
        [where st = "initialize context_AB" and fetch = "serving page_C"
           and fetch' = "serving page_C" and baseUrl = "''/feed/index''"
           and q = "feedQuery_of (requestNextIfNeeded (serving page_C) ''/feed/index''
                      (initialize context_AB))"
           and s = "requestNextIfNeeded (serving page_C) ''/feed/index''
                      (initialize context_AB)"]
    by (simp add: st)
  have again: "requestNextIfNeeded (serving page_C) ''/feed/index''
        (requestNextIfNeeded (serving page_C) ''/feed/index'' (initialize context_AB)) =
      requestNextIfNeeded (serving page_C) ''/feed/index'' (initialize context_AB)"
    using pending
      in_flight_render_blocks_loadNext
        [where st = "requestNextIfNeeded (serving page_C) ''/feed/index''
                       (initialize context_AB)"
           and fetch = "serving page_C" and fetch' = "serving page_C"
           and baseUrl = "''/feed/index''"]
    by simp
  show ?thesis
    by (intro conjI first pending shown one again)
qed

text \<open>
  C4 as it is stated fails for two calls from one and the same render: both read the query
  result of that render, in which no fetch is in flight yet, so the second call is made
  while the fetch of the first is outstanding and still starts a fetch of its own; two
  requests are issued.
\<close>

theorem same_render_two_requests_counterexample:
  "fs_inflight
     (loadNext_of_render (serving page_C) ''/feed/index''
        (feedQuery_of (initialize context_AB)) (initialize context_AB)) =
     Some (Some 1, Inr page_C)
   \<and> fs_requests
       (loadNext_of_render (serving page_C) ''/feed/index''
          (feedQuery_of (initialize context_AB))
          (loadNext_of_render (serving page_C) ''/feed/index''
             (feedQuery_of (initialize context_AB)) (initialize context_AB))) =
       [''/feed/index-1.json'', ''/feed/index-1.json'']"
  by (simp add: loadNext_of_render_def loadNext_feedQuery_of initialize_def initialData_def
      fetchNextPage_def generateFetchHandler_def serving_def answering_def
      getNextPageParam_def string_of_int_def string_of_nat.simps digit_char_def Let_def)

text \<open>
  C5. After a fetch failure the error stays recorded, every later call of
  \<open>requestNextIfNeeded\<close> is a no-op for as long as an error is recorded (no event of the
  feed changes the state any more), and the pages merged before the failure are
  unchanged: the merged list is again the items of those pages.
\<close>

theorem failure_stops_progression:
  assumes "fs_inflight st = Some (c, Inl e)"
  shows "fs_error (fetchSettled st) = Some e
       \<and> fs_data (fetchSettled st) = fs_data st
       \<and> getMergedItems jsonToPost dflt pageContext (fetchSettled st) =
           Inr (items_of jsonToPost (pages (fs_data st)))
       \<and> loadNext (feedQuery_of (fetchSettled st)) = []
       \<and> requestNextIfNeeded fetch baseUrl (fetchSettled st) = fetchSettled st
       \<and> run baseUrl (fetchSettled st) evs = fetchSettled st
       \<and> (error q \<noteq> None \<longrightarrow> loadNext q = [])
       \<and> (fs_error s \<noteq> None \<longrightarrow> requestNextIfNeeded fetch baseUrl s = s)"
proof -
  let ?st' = "fetchSettled st"
  have st': "?st' = st\<lparr>fs_error := Some e, fs_inflight := None\<rparr>"
    using assms by (simp add: fetchSettled_def)
  have err: "fs_error ?st' = Some e" and dat: "fs_data ?st' = fs_data st"
    and idle: "fs_inflight ?st' = None"
    by (simp_all add: st')
  have quiet: "loadNext (feedQuery_of ?st') = []"
    by (simp add: loadNext_feedQuery_of err)
  have items: "getMergedItems jsonToPost dflt pageContext ?st' =
      Inr (items_of jsonToPost (pages (fs_data ?st')))"
    unfolding getMergedItems_def
    by (rule feedItems_idle) (simp_all add: feedQuery_of_def idle)
  have req: "requestNextIfNeeded fetch baseUrl ?st' = ?st'"
    by (simp add: requestNextIfNeeded_if quiet)
  have stay: "run baseUrl ?st' evs = ?st'"
    using quiet idle by (rule run_idle)
  have guard: "error q \<noteq> None \<longrightarrow> loadNext q = []"
    by (simp add: loadNext_def)
  have any: "fs_error s \<noteq> None \<longrightarrow> requestNextIfNeeded fetch baseUrl s = s"
    by (simp add: requestNextIfNeeded_if loadNext_feedQuery_of)
  from err dat items quiet req stay guard any show ?thesis by simp
qed

theorem failure_stops_progression_witness:
  "fs_inflight
     (requestNextIfNeeded (answering \<lparr>ok = False, json = Inr page_C\<rparr>) ''/feed/index''
        (initialize context_AB)) =
     Some (Some 1, Inl (Error ''Failed to fetch /feed/index-1.json''))
   \<and> getMergedItems id 10 context_AB
       (fetchSettled
          (requestNextIfNeeded (answering \<lparr>ok = False, json = Inr page_C\<rparr>) ''/feed/index''
             (initialize context_AB))) =
       Inr [Post ''A'', Post ''B'']
   \<and> run ''/feed/index''
       (fetchSettled
          (requestNextIfNeeded (answering \<lparr>ok = False, json = Inr page_C\<rparr>) ''/feed/index''
             (initialize context_AB)))
       [RequestNextIfNeeded (serving page_C), FetchSettled] =
       \<lparr>fs_data = \<lparr>pages = [page_AB], pageParams = [Some 0]\<rparr>, fs_inflight = None,
        fs_error = Some (Error ''Failed to fetch /feed/index-1.json''),
        fs_requests = [''/feed/index-1.json'']\<rparr>"
proof -
  have st: "requestNextIfNeeded (answering \<lparr>ok = False, json = Inr page_C\<rparr>) ''/feed/index''
        (initialize context_AB) =
      \<lparr>fs_data = \<lparr>pages = [page_AB], pageParams = [Some 0]\<rparr>,
       fs_inflight = Some (Some 1, Inl (Error ''Failed to fetch /feed/index-1.json'')),
       fs_error = None, fs_requests = [''/feed/index-1.json'']\<rparr>"
    by (simp add: initialize_def initialData_def requestNextIfNeeded_if
        loadNext_feedQuery_of fetchNextPage_def generateFetchHandler_def answering_def
        getNextPageParam_def string_of_int_def string_of_nat.simps digit_char_def Let_def)
  show ?thesis
    using failure_stops_progression
      [where st = "requestNextIfNeeded (answering \<lparr>ok = False, json = Inr page_C\<rparr>)
            ''/feed/index'' (initialize context_AB)"
         and c = "Some 1" and e = "Error ''Failed to fetch /feed/index-1.json''"
         and jsonToPost = id and dflt = 10
         and pageContext = context_AB and fetch = "serving page_C"
         and baseUrl = "''/feed/index''"
         and evs = "[RequestNextIfNeeded (serving page_C), FetchSettled]"
         and q = "feedQuery_of (initialize context_AB)" and s = "initialize context_AB"]
    by (simp add: st fetchSettled_def items_of_def)
qed

text \<open>
  C6. Once the most recently fetched page carries no cursor and no fetch is in flight,
  \<open>requestNextIfNeeded\<close> is a no-op for good: \<open>loadNext\<close> calls nothing, and whatever
  events follow, the state stays the same, so no request is ever issued again. This
  covers the state right after the last page has been appended.
\<close>

theorem last_page_ends_fetching:
  assumes "fs_inflight st = None" and "pages (fs_data st) \<noteq> []"
    and "page_next (last (pages (fs_data st))) = None"
  shows "loadNext (feedQuery_of st) = []
       \<and> requestNextIfNeeded fetch baseUrl st = st
       \<and> run baseUrl st evs = st
       \<and> fs_requests (run baseUrl st evs) = fs_requests st
       \<and> loadNext (feedQuery_of (run baseUrl st evs)) = []"
proof -
  have quiet: "loadNext (feedQuery_of st) = []"
    using assms(3) by (simp add: loadNext_feedQuery_of)
  have req: "requestNextIfNeeded fetch baseUrl st = st"
    by (simp add: requestNextIfNeeded_if quiet)
  have "run baseUrl st evs = st"
    using quiet assms(1) by (rule run_idle)
  with quiet req show ?thesis by simp
qed

theorem last_page_ends_fetching_witness:
  "fs_inflight (run ''/feed/index'' (initialize context_AB) (fetches [page_C])) = None
   \<and> pages (fs_data (run ''/feed/index'' (initialize context_AB) (fetches [page_C]))) =
       [page_AB, page_C]
   \<and> page_next (last [page_AB, page_C]) = None
   \<and> run ''/feed/index'' (run ''/feed/index'' (initialize context_AB) (fetches [page_C]))
       [RequestNextIfNeeded (serving page_AB), FetchSettled,
        ViewportChanged (serving page_AB) \<lparr>current = Some 10, innerHeight = 600\<rparr>] =
       \<lparr>fs_data = \<lparr>pages = [page_AB, page_C], pageParams = [Some 0, Some 1]\<rparr>,
        fs_inflight = None, fs_error = None, fs_requests = [''/feed/index-1.json'']\<rparr>"
proof -
  have st: "run ''/feed/index'' (initialize context_AB) (fetches [page_C]) =
      \<lparr>fs_data = \<lparr>pages = [page_AB, page_C], pageParams = [Some 0, Some 1]\<rparr>,
       fs_inflight = None, fs_error = None, fs_requests = [''/feed/index-1.json'']\<rparr>"
    by (simp add: run_def fetches_def initialize_def initialData_def requestNextIfNeeded_if
        loadNext_feedQuery_of fetchNextPage_def fetchSettled_def generateFetchHandler_def
        serving_def answering_def getNextPageParam_def string_of_int_def
        string_of_nat.simps digit_char_def Let_def)
  show ?thesis
    using last_page_ends_fetching
      [where st = "run ''/feed/index'' (initialize context_AB) (fetches [page_C])"
         and fetch = "serving page_AB" and baseUrl = "''/feed/index''"
         and evs = "[RequestNextIfNeeded (serving page_AB), FetchSettled,
            ViewportChanged (serving page_AB) \<lparr>current = Some 10, innerHeight = 600\<rparr>]"]
    by (simp add: st)
qed

text \<open>
  C7 (as amended). For every page cursor the fetch handler requests exactly the resource
  location \<open>baseUrl-cursor.json\<close>. A fetch started by \<open>requestNextIfNeeded\<close> uses the
  \<open>next\<close> value of the most recently fetched page as its cursor. The handler throws its
  error \<open>Failed to fetch ...\<close> when the response is not a success; it yields a page exactly
  when the fetch gives a success response whose body parses to that page, so it also
  fails when the transport fails or the body of a success response does not parse.
\<close>

theorem fetch_handler_protocol:
  "fst (generateFetchHandler fetch baseUrl (Some c)) =
     [baseUrl @ ''-'' @ string_of_int c @ ''.json'']
   \<and> (fetch (baseUrl @ ''-'' @ string_of_int c @ ''.json'') = Inr r \<and> \<not> ok r \<longrightarrow>
        snd (generateFetchHandler fetch baseUrl (Some c)) =
          Inl (Error (''Failed to fetch '' @ baseUrl @ ''-'' @ string_of_int c @ ''.json'')))
   \<and> (snd (generateFetchHandler fetch baseUrl (Some c)) = Inr p) =
       (\<exists>r'. fetch (baseUrl @ ''-'' @ string_of_int c @ ''.json'') = Inr r' \<and> ok r'
          \<and> json r' = Inr p)
   \<and> (loadNext (feedQuery_of st) = [FetchNextPage] \<longrightarrow>
        (\<exists>c'. page_next (last (pages (fs_data st))) = Some c'
           \<and> fs_requests (requestNextIfNeeded fetch baseUrl st) =
               fs_requests st @ [baseUrl @ ''-'' @ string_of_int c' @ ''.json'']))"
proof -
  let ?url = "baseUrl @ ''-'' @ string_of_int c @ ''.json''"
  have a: "fst (generateFetchHandler fetch baseUrl (Some c)) = [?url]"
    by (simp add: fst_generateFetchHandler)
  have b: "fetch ?url = Inr r \<and> \<not> ok r \<longrightarrow>
      snd (generateFetchHandler fetch baseUrl (Some c)) =
        Inl (Error (''Failed to fetch '' @ ?url))"
    by (simp add: generateFetchHandler_def Let_def)
  have c: "(snd (generateFetchHandler fetch baseUrl (Some c)) = Inr p) =
      (\<exists>r'. fetch ?url = Inr r' \<and> ok r' \<and> json r' = Inr p)"
    by (cases "fetch ?url") (auto simp add: generateFetchHandler_def Let_def)
  have d: "loadNext (feedQuery_of st) = [FetchNextPage] \<longrightarrow>
      (\<exists>c'. page_next (last (pages (fs_data st))) = Some c'
         \<and> fs_requests (requestNextIfNeeded fetch baseUrl st) =
             fs_requests st @ [baseUrl @ ''-'' @ string_of_int c' @ ''.json''])"
    by (auto simp add: requestNextIfNeeded_if loadNext_feedQuery_of fetchNextPage_fields
        split: if_splits)
  from a b c d show ?thesis by blast
qed

theorem fetch_handler_protocol_witness:
  "answering \<lparr>ok = False, json = Inr page_C\<rparr> (''/feed/index'' @ ''-'' @ string_of_int 1 @ ''.json'') =
     Inr \<lparr>ok = False, json = Inr page_C\<rparr>
   \<and> \<not> ok \<lparr>ok = False, json = Inr page_C\<rparr>
   \<and> generateFetchHandler (answering \<lparr>ok = False, json = Inr page_C\<rparr>) ''/feed/index'' (Some 1) =
       ([''/feed/index-1.json''], Inl (Error ''Failed to fetch /feed/index-1.json''))
   \<and> loadNext (feedQuery_of (initialize context_AB)) = [FetchNextPage]
   \<and> page_next (last (pages (fs_data (initialize context_AB)))) = Some 1
   \<and> fs_requests
       (requestNextIfNeeded (answering \<lparr>ok = False, json = Inr page_C\<rparr>) ''/feed/index''
          (initialize context_AB)) = [''/feed/index-1.json'']"
  using fetch_handler_protocol
    [where fetch = "answering \<lparr>ok = False, json = Inr page_C\<rparr>"
       and baseUrl = "''/feed/index''" and c = 1
       and r = "\<lparr>ok = False, json = Inr page_C\<rparr>" and p = page_C
       and st = "initialize context_AB"]
  by (simp add: answering_def prod_eq_iff loadNext_feedQuery_of initialize_def
      initialData_def string_of_int_def string_of_nat.simps digit_char_def)

text \<open>
  C7 as it is stated fails for a success response whose body does not parse: the response
  is ok, and the handler fails all the same.
\<close>

theorem fetch_handler_unparsable_counterexample:
  "ok (\<lparr>ok = True, json = Inl SyntaxError\<rparr> :: string response)
   \<and> generateFetchHandler
       (answering (\<lparr>ok = True, json = Inl SyntaxError\<rparr> :: string response))
       ''/feed/index'' (Some 1) =
       ([''/feed/index-1.json''], Inl SyntaxError)"
  by (simp add: generateFetchHandler_def answering_def string_of_int_def
      string_of_nat.simps digit_char_def)

text \<open>
  C8. On a scroll event, \<open>loadNext\<close> is invoked if and only if an element is attached to
  the feed reference and the bottom of its bounding rectangle is at most the inner height
  of the window. The same check is made once in every render pass, with the same
  outcome; whether a fetch follows is then decided by \<open>loadNext\<close>.
\<close>

theorem scroll_check_invokes_loadNext:
  "(LoadNext \<in> set (onScroll v q)) =
     (\<exists>bottom. current v = Some bottom \<and> bottom \<le> innerHeight v)
   \<and> useScrollContingentFetch v q = onScroll v q
   \<and> (LoadNext \<in> set (useScrollContingentFetch v q)) =
       (\<exists>bottom. current v = Some bottom \<and> bottom \<le> innerHeight v)
   \<and> onScroll v q =
       (if LoadNext \<in> set (onScroll v q) then LoadNext # loadNext q else [])
   \<and> viewportChanged fetch baseUrl v st =
       (if LoadNext \<in> set (onScroll v (feedQuery_of st))
        then requestNextIfNeeded fetch baseUrl st else st)"
  by (auto simp add: onScroll_def useScrollContingentFetch_def checkScrollState_def
      viewportChanged_if split: option.splits)

theorem scroll_check_invokes_loadNext_witness:
  "onScroll \<lparr>current = Some 580, innerHeight = 600\<rparr> (feedQuery_of (initialize context_AB)) =
     [LoadNext, FetchNextPage]
   \<and> onScroll \<lparr>current = Some 900, innerHeight = 600\<rparr> (feedQuery_of (initialize context_AB)) =
       []
   \<and> useScrollContingentFetch \<lparr>current = None, innerHeight = 600\<rparr>
       (feedQuery_of (initialize context_AB)) = []"
proof -
  have q: "loadNext (feedQuery_of (initialize context_AB)) = [FetchNextPage]"
    by (simp add: loadNext_feedQuery_of initialize_def initialData_def)
  have near: "onScroll \<lparr>current = Some 580, innerHeight = 600\<rparr>
      (feedQuery_of (initialize context_AB)) = [LoadNext, FetchNextPage]"
    using scroll_check_invokes_loadNext
      [where v = "\<lparr>current = Some 580, innerHeight = 600\<rparr>"
         and q = "feedQuery_of (initialize context_AB)"
         and fetch = "serving page_C" and baseUrl = "''/feed/index''"
         and st = "initialize context_AB"]
    by (simp add: q onScroll_def useScrollContingentFetch_def checkScrollState_def)
  have far: "onScroll \<lparr>current = Some 900, innerHeight = 600\<rparr>
      (feedQuery_of (initialize context_AB)) = []"
    using scroll_check_invokes_loadNext
      [where v = "\<lparr>current = Some 900, innerHeight = 600\<rparr>"
         and q = "feedQuery_of (initialize context_AB)"
         and fetch = "serving page_C" and baseUrl = "''/feed/index''"
         and st = "initialize context_AB"]
    by (simp add: onScroll_def useScrollContingentFetch_def checkScrollState_def)
  have unattached: "useScrollContingentFetch \<lparr>current = None, innerHeight = 600\<rparr>
      (feedQuery_of (initialize context_AB)) = []"
    using scroll_check_invokes_loadNext
      [where v = "\<lparr>current = None, innerHeight = 600\<rparr>"
         and q = "feedQuery_of (initialize context_AB)"
         and fetch = "serving page_C" and baseUrl = "''/feed/index''"
         and st = "initialize context_AB"]
    by (simp add: onScroll_def useScrollContingentFetch_def checkScrollState_def)
  from near far unattached show ?thesis by simp
qed

text \<open>
  C9. For a count of 0 the placeholder generator gives what it gives for an absent count:
  the default page size number of placeholders, not none. With a default page size of at
  least 1 that is an array length, every count that is absent or an array length gives at
  least one placeholder, so a merged list computed while a fetch is in flight ends with at
  least one placeholder.
\<close>

theorem zero_count_gives_default_placeholders:
  assumes "0 < dflt" and "array_length dflt"
  shows "generatePostPlaceholders dflt keyPrefix (Some 0) =
           (generatePostPlaceholders dflt keyPrefix None :: error + 'p feed_item list)
       \<and> generatePostPlaceholders dflt keyPrefix (Some 0) =
           (Inr (placeholders keyPrefix (nat dflt)) :: error + 'p feed_item list)
       \<and> length (placeholders keyPrefix (nat dflt) :: 'p feed_item list) = nat dflt
       \<and> 0 < nat dflt
       \<and> (count = None \<or> (\<exists>k. count = Some k \<and> array_length k) \<longrightarrow>
            generatePostPlaceholders dflt keyPrefix count =
              (Inr (placeholders keyPrefix (nat (placeholder_count dflt count)))
                 :: error + 'p feed_item list)
            \<and> 0 < nat (placeholder_count dflt count))
       \<and> (isFetchingNextPage q \<and> data q = Some d \<and> pages d \<noteq> []
            \<and> nextCount (last (pages d)) = Some 0 \<longrightarrow>
            feedItems jsonToPost dflt pageContext q =
              Inr (items_of jsonToPost (pages d) @ placeholders ''next'' (nat dflt)))"
proof -
  have zero: "placeholder_count dflt (Some 0) = dflt"
    and none: "placeholder_count dflt None = dflt"
    by (simp_all add: placeholder_count_def)
  have a: "generatePostPlaceholders dflt keyPrefix (Some 0) =
      (generatePostPlaceholders dflt keyPrefix None :: error + 'p feed_item list)"
    by (simp add: generatePostPlaceholders_eq zero none)
  have b: "generatePostPlaceholders dflt keyPrefix (Some 0) =
      (Inr (placeholders keyPrefix (nat dflt)) :: error + 'p feed_item list)"
    using assms(2) by (simp add: generatePostPlaceholders_eq zero)
  have c: "length (placeholders keyPrefix (nat dflt) :: 'p feed_item list) = nat dflt"
    by (rule length_placeholders)
  have d: "0 < nat dflt" using assms(1) by simp
  have e: "count = None \<or> (\<exists>k. count = Some k \<and> array_length k) \<longrightarrow>
      generatePostPlaceholders dflt keyPrefix count =
        (Inr (placeholders keyPrefix (nat (placeholder_count dflt count)))
           :: error + 'p feed_item list)
      \<and> 0 < nat (placeholder_count dflt count)"
    using assms
    by (auto simp add: generatePostPlaceholders_eq placeholder_count_def array_length_def
        split: if_splits)
  have f: "isFetchingNextPage q \<and> data q = Some d \<and> pages d \<noteq> []
      \<and> nextCount (last (pages d)) = Some 0 \<longrightarrow>
      feedItems jsonToPost dflt pageContext q =
        Inr (items_of jsonToPost (pages d) @ placeholders ''next'' (nat dflt))"
    using assms(2) by (auto simp add: feedItems_fetching zero)
  from a b c d e f show ?thesis by blast
qed

theorem zero_count_gives_default_placeholders_witness:
  "(0::int) < 2 \<and> array_length 2
   \<and> generatePostPlaceholders 2 ''next'' (Some 0) =
       (Inr [PlaceholderPost ''next-0'', PlaceholderPost ''next-1'']
          :: error + string feed_item list)
   \<and> generatePostPlaceholders 2 ''next'' None =
       (Inr [PlaceholderPost ''next-0'', PlaceholderPost ''next-1'']
          :: error + string feed_item list)"
  using zero_count_gives_default_placeholders
    [where dflt = 2 and keyPrefix = "''next''" and count = None and ?'p = string
       and q = "\<lparr>data = None, hasNextPage = False, isFetchingNextPage = False,
                  error = None\<rparr>"
       and d = "\<lparr>pages = [], pageParams = []\<rparr>" and jsonToPost = id
       and pageContext = context_AB]
  by (simp add: array_length_def array_length_max_def placeholders_def placeholder_count_def
      string_of_nat.simps digit_char_def upt_rec)

text \<open>
  C10. In a render in which the query has no data object, the merged list is computed
  from the posts of the page context, converted to items, and the computation yields a
  list: exactly those items when no fetch is in flight, followed by the default number of
  placeholders when one is (the default page size being an array length).
\<close>

theorem merged_items_without_data:
  assumes "data q = None" and "array_length dflt"
  shows "feedItems jsonToPost dflt pageContext q =
           Inr (map (\<lambda>j. Post (jsonToPost j)) (posts (feedMetadata pageContext)) @
                (if isFetchingNextPage q then placeholders ''next'' (nat dflt) else []))
       \<and> (\<not> isFetchingNextPage q \<longrightarrow>
            feedItems jsonToPost dflt pageContext q =
              Inr (map (\<lambda>j. Post (jsonToPost j)) (posts (feedMetadata pageContext))))"
  using assms by (simp add: feedItems_no_data)

theorem merged_items_without_data_witness:
  "data \<lparr>data = None :: string infinite_data option, hasNextPage = False,
         isFetchingNextPage = False, error = None\<rparr> = None
   \<and> array_length 10
   \<and> feedItems id 10 context_AB
       \<lparr>data = None, hasNextPage = False, isFetchingNextPage = False, error = None\<rparr> =
       Inr [Post ''A'', Post ''B'']"
  using merged_items_without_data
    [where q = "\<lparr>data = None :: string infinite_data option, hasNextPage = False,
         isFetchingNextPage = False, error = None\<rparr>"
       and dflt = 10 and jsonToPost = id and pageContext = context_AB]
  by (simp add: array_length_def array_length_max_def)

end
